theory Spec2Isabelle
  imports Main "HOL-Library.While_Combinator"
begin

section \<open>Collaborators of the bracket-pair AST\<close>

text \<open>
  Modelled from the spec: the module \<^verbatim>\<open>./length\<close> (\<^verbatim>\<open>Length\<close>, \<^verbatim>\<open>lengthZero\<close>,
  \<^verbatim>\<open>lengthAdd\<close>) is absent. The spec asks for an additive measure of text extent with a
  zero value, so a Length is any type of sort \<open>monoid_add\<close>: addition is associative and
  zero is neutral on both sides, but addition need not commute (a line/column delta does
  not).
\<close>

definition lengthZero :: "'len::monoid_add" where
  "lengthZero = 0"

definition lengthAdd :: "'len::monoid_add \<Rightarrow> 'len \<Rightarrow> 'len" where
  "lengthAdd a b = a + b"

text \<open>
  Modelled from the spec: the module \<^verbatim>\<open>./smallImmutableSet\<close> is absent. The spec
  describes an immutable set of small integer category keys with an empty-set constructor,
  \<^verbatim>\<open>merge\<close> (union) and \<^verbatim>\<open>intersects\<close> (intersection test).
\<close>

type_synonym SmallImmutableSet = "nat set"

definition getEmpty :: SmallImmutableSet where
  "getEmpty = {}"

definition merge :: "SmallImmutableSet \<Rightarrow> SmallImmutableSet \<Rightarrow> SmallImmutableSet" where
  "merge a b = a \<union> b"

definition intersects :: "SmallImmutableSet \<Rightarrow> SmallImmutableSet \<Rightarrow> bool" where
  "intersects a b = (a \<inter> b \<noteq> {})"

text \<open>
  Modelled from the spec: \<^verbatim>\<open>tail\<close> of \<^verbatim>\<open>vs/base/common/arrays\<close> is absent. The spec
  describes its use as taking the last child; it is only called on a non-empty array.
\<close>

definition tail :: "'a list \<Rightarrow> 'a" where
  "tail xs = last xs"


section \<open>Data model\<close>

datatype AstNodeKind = Text | Bracket | PairKind | UnexpectedClosingBracket | ListKind

text \<open>
  An object of the source is a value together with the reference under which it was
  allocated (a natural number): two nodes are the same instance when their references are
  equal. Every \<^verbatim>\<open>new\<close> of the source takes the next free reference from a counter that
  the allocating functions below pass along.
\<close>

type_synonym ref = nat

text \<open>\<^verbatim>\<open>BracketAstNode\<close>: its reference and its \<^verbatim>\<open>_length\<close>.\<close>

datatype 'len BracketAstNode = BracketAstNode (bracket_ref: ref) (bracket_length: 'len)

text \<open>
  The union \<^verbatim>\<open>AstNode\<close>. Fields, in order:
  \<^item> \<open>TextAstNode\<close>: reference, \<^verbatim>\<open>_length\<close>;
  \<^item> \<open>BracketNode\<close>: a \<^verbatim>\<open>BracketAstNode\<close> seen as an \<^verbatim>\<open>AstNode\<close>;
  \<^item> \<open>InvalidBracketAstNode\<close>: reference, \<^verbatim>\<open>_length\<close>, \<^verbatim>\<open>unopenedBrackets\<close>;
  \<^item> \<open>PairAstNode\<close>: reference, \<^verbatim>\<open>_length\<close>, \<^verbatim>\<open>category\<close>, \<^verbatim>\<open>openingBracket\<close>,
    \<^verbatim>\<open>child\<close>, \<^verbatim>\<open>closingBracket\<close>, \<^verbatim>\<open>unopenedBrackets\<close>;
  \<^item> \<open>ListAstNode\<close>: reference, whether the object is of the subclass
    \<^verbatim>\<open>ImmutableListAstNode\<close>, \<^verbatim>\<open>_length\<close>, \<^verbatim>\<open>listHeight\<close>, \<^verbatim>\<open>_children\<close>,
    \<^verbatim>\<open>_unopenedBrackets\<close>.
\<close>

datatype 'len AstNode =
    TextAstNode ref 'len
  | BracketNode "'len BracketAstNode"
  | InvalidBracketAstNode ref 'len SmallImmutableSet
  | PairAstNode ref 'len nat "'len BracketAstNode" "'len AstNode option"
      "'len BracketAstNode option" SmallImmutableSet
  | ListAstNode ref bool 'len nat "'len AstNode list" SmallImmutableSet

fun kind :: "'len AstNode \<Rightarrow> AstNodeKind" where
  "kind (TextAstNode r len) = Text"
| "kind (BracketNode b) = Bracket"
| "kind (InvalidBracketAstNode r len ub) = UnexpectedClosingBracket"
| "kind (PairAstNode r len cat ob ch cb ub) = PairKind"
| "kind (ListAstNode r imm len h cs ub) = ListKind"

text \<open>The getter \<^verbatim>\<open>length\<close> of \<^verbatim>\<open>BaseAstNode\<close>.\<close>

fun node_length :: "'len AstNode \<Rightarrow> 'len" where
  "node_length (TextAstNode r len) = len"
| "node_length (BracketNode b) = bracket_length b"
| "node_length (InvalidBracketAstNode r len ub) = len"
| "node_length (PairAstNode r len cat ob ch cb ub) = len"
| "node_length (ListAstNode r imm len h cs ub) = len"

fun unopenedBrackets :: "'len AstNode \<Rightarrow> SmallImmutableSet" where
  "unopenedBrackets (TextAstNode r len) = getEmpty"
| "unopenedBrackets (BracketNode b) = getEmpty"
| "unopenedBrackets (InvalidBracketAstNode r len ub) = ub"
| "unopenedBrackets (PairAstNode r len cat ob ch cb ub) = ub"
| "unopenedBrackets (ListAstNode r imm len h cs ub) = ub"

fun listHeight :: "'len AstNode \<Rightarrow> nat" where
  "listHeight (ListAstNode r imm len h cs ub) = h"
| "listHeight n = 0"

text \<open>
  The getter \<^verbatim>\<open>children\<close>: a Pair leaves out an absent child and an absent closing
  bracket.
\<close>

fun children :: "'len AstNode \<Rightarrow> 'len AstNode list" where
  "children (PairAstNode r len cat ob ch cb ub) =
     [BracketNode ob]
     @ (case ch of None \<Rightarrow> [] | Some c \<Rightarrow> [c])
     @ (case cb of None \<Rightarrow> [] | Some b \<Rightarrow> [BracketNode b])"
| "children (ListAstNode r imm len h cs ub) = cs"
| "children n = []"

text \<open>The getter \<^verbatim>\<open>childrenFast\<close>, which only \<^verbatim>\<open>ListAstNode\<close> has.\<close>

fun childrenFast :: "'len AstNode \<Rightarrow> 'len AstNode list" where
  "childrenFast (ListAstNode r imm len h cs ub) = cs"


section \<open>The reuse predicate\<close>

lemma size_last_less: "cs \<noteq> [] \<Longrightarrow> size (last cs) < Suc (size_list size cs)"
  by (induction cs) auto

text \<open>
  The loop of \<^verbatim>\<open>ListAstNode.canBeReused\<close>:
  \<^verbatim>\<open>while (lastChild.kind === AstNodeKind.List && lastChild.childrenFast.length > 0)
    lastChild = tail(lastChild.childrenFast)\<close>,
  as a function of the node the variable \<^verbatim>\<open>lastChild\<close> holds when the loop is entered.
\<close>

function lastChildLoop :: "'len AstNode \<Rightarrow> 'len AstNode" where
  "lastChildLoop lastChild =
     (if kind lastChild = ListKind \<and> length (childrenFast lastChild) > 0
      then lastChildLoop (tail (childrenFast lastChild))
      else lastChild)"
  by pat_completeness auto
termination
proof (relation "measure size")
  show "wf (measure size)" by simp
next
  fix lastChild :: "'len AstNode"
  assume "kind lastChild = ListKind \<and> 0 < length (childrenFast lastChild)"
  then show "(tail (childrenFast lastChild), lastChild) \<in> measure size"
    using size_last_less [of "childrenFast lastChild"]
    by (cases lastChild) (simp_all add: tail_def)
qed

declare lastChildLoop.simps [simp del]

lemma size_lastChildLoop: "size (lastChildLoop n) \<le> size n"
proof (induction n rule: lastChildLoop.induct)
  case (1 lastChild)
  show ?case
  proof (cases "kind lastChild = ListKind \<and> length (childrenFast lastChild) > 0")
    case True
    then have "size (tail (childrenFast lastChild)) < size lastChild"
      using size_last_less [of "childrenFast lastChild"]
      by (cases lastChild) (simp_all add: tail_def)
    moreover have "lastChildLoop lastChild = lastChildLoop (tail (childrenFast lastChild))"
      using True by (simp add: lastChildLoop.simps [of lastChild])
    moreover have "size (lastChildLoop (tail (childrenFast lastChild)))
                     \<le> size (tail (childrenFast lastChild))"
      using 1 True by simp
    ultimately show ?thesis by simp
  next
    case False
    then have "lastChildLoop lastChild = lastChild"
      by (auto simp add: lastChildLoop.simps [of lastChild])
    then show ?thesis by simp
  qed
qed

lemma size_lastChildLoop_List:
  assumes "cs \<noteq> []"
  shows "size (lastChildLoop (ListAstNode r imm len h cs ub))
           < size (ListAstNode r imm len h cs ub)"
proof -
  have "lastChildLoop (ListAstNode r imm len h cs ub) = lastChildLoop (tail cs)"
    using assms by (simp add: lastChildLoop.simps [of "ListAstNode r imm len h cs ub"])
  moreover have "size (lastChildLoop (tail cs)) \<le> size (tail cs)"
    by (rule size_lastChildLoop)
  moreover have "size (tail cs) < size (ListAstNode r imm len h cs ub)"
    using size_last_less [OF assms] by (simp add: tail_def)
  ultimately show ?thesis by simp
qed

function canBeReused :: "'len AstNode \<Rightarrow> SmallImmutableSet \<Rightarrow> bool \<Rightarrow> bool" where
  "canBeReused (TextAstNode r len) expectedClosingCategories endLineDidChange =
     (\<not> endLineDidChange)"
| "canBeReused (BracketNode b) expectedClosingCategories endLineDidChange = False"
| "canBeReused (InvalidBracketAstNode r len ub) expectedClosingCategories endLineDidChange =
     (\<not> intersects expectedClosingCategories ub)"
| "canBeReused (PairAstNode r len cat ob ch cb ub) expectedClosingCategories endLineDidChange =
     (if cb = None then False
      else if intersects expectedClosingCategories ub then False
      else True)"
| "canBeReused (ListAstNode r imm len h cs ub) expectedClosingCategories endLineDidChange =
     (if length cs = 0 then True
      else if intersects expectedClosingCategories ub then False
      else canBeReused (lastChildLoop (ListAstNode r imm len h cs ub))
             expectedClosingCategories endLineDidChange)"
  by pat_completeness auto
termination
proof (relation "measure (\<lambda>(n, e, d). size n)")
  show "wf (measure (\<lambda>(n :: 'len AstNode, e :: SmallImmutableSet, d :: bool). size n))"
    by simp
next
  fix r imm and len :: 'len and h and cs :: "'len AstNode list" and ub
    and expectedClosingCategories :: SmallImmutableSet and endLineDidChange :: bool
  assume "length cs \<noteq> 0"
  then have "cs \<noteq> []" by simp
  from size_lastChildLoop_List [OF this, of r imm len h ub]
  show "((lastChildLoop (ListAstNode r imm len h cs ub), expectedClosingCategories,
           endLineDidChange),
          ListAstNode r imm len h cs ub, expectedClosingCategories, endLineDidChange)
        \<in> measure (\<lambda>(n, e, d). size n)"
    by simp
qed



section \<open>Factories\<close>

fun computeLength ::
  "'len::monoid_add BracketAstNode \<Rightarrow> 'len AstNode option \<Rightarrow> 'len BracketAstNode option \<Rightarrow> 'len"
where
  "computeLength openingBracket child closingBracket =
     (let len = bracket_length openingBracket;
          len = (case child of Some c \<Rightarrow> lengthAdd len (node_length c) | None \<Rightarrow> len);
          len = (case closingBracket of Some b \<Rightarrow> lengthAdd len (bracket_length b)
                 | None \<Rightarrow> len)
      in len)"

text \<open>
  \<^verbatim>\<open>PairAstNode.create\<close>. The last argument of an allocating function is the next free
  reference; the function returns the object and the next free reference after it.
\<close>

definition PairAstNode_create ::
  "nat \<Rightarrow> 'len::monoid_add BracketAstNode \<Rightarrow> 'len AstNode option \<Rightarrow> 'len BracketAstNode option
     \<Rightarrow> ref \<Rightarrow> 'len AstNode \<times> ref"
where
  "PairAstNode_create category openingBracket child closingBracket k =
     (PairAstNode k (computeLength openingBracket child closingBracket) category
        openingBracket child closingBracket
        (case child of Some c \<Rightarrow> unopenedBrackets c | None \<Rightarrow> getEmpty),
      Suc k)"

text \<open>
  The loop shared by \<^verbatim>\<open>ListAstNode.create\<close> and \<^verbatim>\<open>handleChildrenChanged\<close>:
  \<^verbatim>\<open>for (let i = 1; i < items.length; i++) { length = lengthAdd(length, items[i].length);
    unopenedBrackets = unopenedBrackets.merge(items[i].unopenedBrackets); }\<close>,
  as a function of the two variables and of the items from index \<open>i\<close> on.
\<close>

fun aggregateLoop ::
  "'len::monoid_add \<Rightarrow> SmallImmutableSet \<Rightarrow> 'len AstNode list \<Rightarrow> 'len \<times> SmallImmutableSet"
where
  "aggregateLoop len ub [] = (len, ub)"
| "aggregateLoop len ub (item # rest) =
     aggregateLoop (lengthAdd len (node_length item)) (merge ub (unopenedBrackets item)) rest"

definition ListAstNode_create ::
  "'len::monoid_add AstNode list \<Rightarrow> bool \<Rightarrow> ref \<Rightarrow> 'len AstNode \<times> ref"
where
  "ListAstNode_create items immutable k =
     (if length items = 0 then
        (if immutable then (ListAstNode k True lengthZero 0 items getEmpty, Suc k)
         else (ListAstNode k False lengthZero 0 items getEmpty, Suc k))
      else
        (let (len, ub) = aggregateLoop (node_length (items ! 0)) (unopenedBrackets (items ! 0))
                           (drop 1 items)
         in if immutable then (ListAstNode k True len (listHeight (items ! 0) + 1) items ub, Suc k)
            else (ListAstNode k False len (listHeight (items ! 0) + 1) items ub, Suc k)))"


section \<open>Mutation of List nodes\<close>

datatype error = Error string

text \<open>
  \<^verbatim>\<open>throwIfImmutable\<close>: a no-op in \<^verbatim>\<open>ListAstNode\<close>, overridden to throw in
  \<^verbatim>\<open>ImmutableListAstNode\<close>. The methods of this section exist on List nodes only.
\<close>

fun throwIfImmutable :: "'len AstNode \<Rightarrow> error + unit" where
  "throwIfImmutable (ListAstNode r imm len h cs ub) =
     (if imm then Inl (Error ''this instance is immutable'') else Inr ())"

text \<open>A mutator returns the error thrown, or the List object as it is afterwards.\<close>

fun handleChildrenChanged :: "'len::monoid_add AstNode \<Rightarrow> error + 'len AstNode" where
  "handleChildrenChanged (ListAstNode r imm len h items ub) =
     (case throwIfImmutable (ListAstNode r imm len h items ub) of
        Inl e \<Rightarrow> Inl e
      | Inr _ \<Rightarrow>
          if length items = 0 then Inr (ListAstNode r imm len h items ub)
          else
            (let (len', ub') =
                   aggregateLoop (node_length (items ! 0)) (unopenedBrackets (items ! 0))
                     (drop 1 items)
             in Inr (ListAstNode r imm len' h items ub')))"

fun appendChildOfSameHeight ::
  "'len::monoid_add AstNode \<Rightarrow> 'len AstNode \<Rightarrow> error + 'len AstNode"
where
  "appendChildOfSameHeight (ListAstNode r imm len h cs ub) node =
     (case throwIfImmutable (ListAstNode r imm len h cs ub) of
        Inl e \<Rightarrow> Inl e
      | Inr _ \<Rightarrow> handleChildrenChanged (ListAstNode r imm len h (cs @ [node]) ub))"

text \<open>
  \<^verbatim>\<open>unappendChild\<close> and \<^verbatim>\<open>unprependChild\<close> also return the removed item:
  \<^verbatim>\<open>pop()\<close> and \<^verbatim>\<open>shift()\<close> give \<^verbatim>\<open>undefined\<close> (here \<open>None\<close>) on an empty array
  and leave it empty.
\<close>

fun unappendChild ::
  "'len::monoid_add AstNode \<Rightarrow> error + ('len AstNode option \<times> 'len AstNode)"
where
  "unappendChild (ListAstNode r imm len h cs ub) =
     (case throwIfImmutable (ListAstNode r imm len h cs ub) of
        Inl e \<Rightarrow> Inl e
      | Inr _ \<Rightarrow>
          (let item = (if cs = [] then None else Some (last cs))
           in case handleChildrenChanged (ListAstNode r imm len h (butlast cs) ub) of
                Inl e \<Rightarrow> Inl e
              | Inr this \<Rightarrow> Inr (item, this)))"

fun prependChildOfSameHeight ::
  "'len::monoid_add AstNode \<Rightarrow> 'len AstNode \<Rightarrow> error + 'len AstNode"
where
  "prependChildOfSameHeight (ListAstNode r imm len h cs ub) node =
     (case throwIfImmutable (ListAstNode r imm len h cs ub) of
        Inl e \<Rightarrow> Inl e
      | Inr _ \<Rightarrow> handleChildrenChanged (ListAstNode r imm len h (node # cs) ub))"

fun unprependChild ::
  "'len::monoid_add AstNode \<Rightarrow> error + ('len AstNode option \<times> 'len AstNode)"
where
  "unprependChild (ListAstNode r imm len h cs ub) =
     (case throwIfImmutable (ListAstNode r imm len h cs ub) of
        Inl e \<Rightarrow> Inl e
      | Inr _ \<Rightarrow>
          (let item = (if cs = [] then None else Some (hd cs))
           in case handleChildrenChanged (ListAstNode r imm len h (tl cs) ub) of
                Inl e \<Rightarrow> Inl e
              | Inr this \<Rightarrow> Inr (item, this)))"

text \<open>
  \<^verbatim>\<open>toMutable\<close>: the identity in \<^verbatim>\<open>BaseAstNode\<close>, overridden in
  \<^verbatim>\<open>ImmutableListAstNode\<close> to allocate a \<^verbatim>\<open>ListAstNode\<close> over a copy of the child
  array.
\<close>

fun toMutable :: "'len AstNode \<Rightarrow> ref \<Rightarrow> 'len AstNode \<times> ref" where
  "toMutable (ListAstNode r imm len h cs ub) k =
     (if imm then (ListAstNode k False len h cs ub, Suc k)
      else (ListAstNode r imm len h cs ub, k))"
| "toMutable n k = (n, k)"


section \<open>Cloning and flattening\<close>

text \<open>
  \<^verbatim>\<open>deepClone\<close> with the helper \<^verbatim>\<open>clone\<close>. A leaf returns itself; so do the brackets of
  a Pair. The arguments of \<^verbatim>\<open>new\<close> are evaluated before the object is allocated.
\<close>

fun deepClone :: "'len AstNode \<Rightarrow> ref \<Rightarrow> 'len AstNode \<times> ref"
  and clone :: "'len AstNode list \<Rightarrow> ref \<Rightarrow> 'len AstNode list \<times> ref"
where
  "deepClone (TextAstNode r len) k = (TextAstNode r len, k)"
| "deepClone (BracketNode b) k = (BracketNode b, k)"
| "deepClone (InvalidBracketAstNode r len ub) k = (InvalidBracketAstNode r len ub, k)"
| "deepClone (PairAstNode r len cat ob ch cb ub) k =
     (case ch of
        None \<Rightarrow> (PairAstNode k len cat ob None cb ub, Suc k)
      | Some c \<Rightarrow>
          (case deepClone c k of
             (c', k') \<Rightarrow> (PairAstNode k' len cat ob (Some c') cb ub, Suc k')))"
| "deepClone (ListAstNode r imm len h cs ub) k =
     (case clone cs k of (cs', k') \<Rightarrow> (ListAstNode k' False len h cs' ub, Suc k'))"
| "clone [] k = ([], k)"
| "clone (c # arr) k =
     (case deepClone c k of
        (c', k1) \<Rightarrow> (case clone arr k1 of (arr', k2) \<Rightarrow> (c' # arr', k2)))"

text \<open>
  \<^verbatim>\<open>flattenLists\<close>; \<open>flattenLoop\<close> is the loop of \<^verbatim>\<open>ListAstNode.flattenLists\<close> over
  the children, returning the items it pushes, in order.
\<close>

fun flattenLists :: "'len::monoid_add AstNode \<Rightarrow> ref \<Rightarrow> 'len AstNode \<times> ref"
  and flattenLoop :: "'len AstNode list \<Rightarrow> ref \<Rightarrow> 'len AstNode list \<times> ref"
where
  "flattenLists (TextAstNode r len) k = (TextAstNode r len, k)"
| "flattenLists (BracketNode b) k = (BracketNode b, k)"
| "flattenLists (InvalidBracketAstNode r len ub) k = (InvalidBracketAstNode r len ub, k)"
| "flattenLists (PairAstNode r len cat ob ch cb ub) k =
     (case ch of
        None \<Rightarrow> PairAstNode_create cat ob None cb k
      | Some c \<Rightarrow>
          (case flattenLists c k of (c', k') \<Rightarrow> PairAstNode_create cat ob (Some c') cb k'))"
| "flattenLists (ListAstNode r imm len h cs ub) k =
     (case flattenLoop cs k of (items, k') \<Rightarrow> ListAstNode_create items False k')"
| "flattenLoop [] k = ([], k)"
| "flattenLoop (c # rest) k =
     (case flattenLists c k of
        (normalized, k1) \<Rightarrow>
          (case flattenLoop rest k1 of
             (items, k2) \<Rightarrow>
               ((if kind normalized = ListKind then children normalized else [normalized])
                  @ items,
                k2)))"



section \<open>Properties of the reuse predicate\<close>

text \<open>
  The spec's wording of the descent in \<^verbatim>\<open>ListAstNode.canBeReused\<close>: starting from a
  node, take the last child again and again while the current node is a List with at
  least one child. \<open>spec_lastChildChain\<close> is \<open>None\<close> if that never stops.
\<close>

definition isNonEmptyList :: "'len AstNode \<Rightarrow> bool" where
  "isNonEmptyList n = (kind n = ListKind \<and> children n \<noteq> [])"

definition takeLastChild :: "'len AstNode \<Rightarrow> 'len AstNode" where
  "takeLastChild n = last (children n)"

definition spec_lastChildChain :: "'len AstNode \<Rightarrow> 'len AstNode option" where
  "spec_lastChildChain n = while_option isNonEmptyList takeLastChild n"

lemma spec_lastChildChain_eq: "spec_lastChildChain n = Some (lastChildLoop n)"
proof (induction n rule: lastChildLoop.induct)
  case (1 lastChild)
  show ?case
  proof (cases "isNonEmptyList lastChild")
    case True
    then have "spec_lastChildChain lastChild = spec_lastChildChain (takeLastChild lastChild)"
      unfolding spec_lastChildChain_def by (subst while_option_unfold) simp
    moreover from True have fast: "childrenFast lastChild = children lastChild"
      by (cases lastChild) (simp_all add: isNonEmptyList_def)
    moreover have "lastChildLoop lastChild = lastChildLoop (tail (childrenFast lastChild))"
      using True fast by (simp add: lastChildLoop.simps [of lastChild] isNonEmptyList_def)
    moreover have "spec_lastChildChain (tail (childrenFast lastChild))
                     = Some (lastChildLoop (tail (childrenFast lastChild)))"
      using 1 True fast by (simp add: isNonEmptyList_def)
    ultimately show ?thesis by (simp add: takeLastChild_def tail_def)
  next
    case False
    then have "spec_lastChildChain lastChild = Some lastChild"
      unfolding spec_lastChildChain_def by (subst while_option_unfold) simp
    moreover from False
    have "\<not> (kind lastChild = ListKind \<and> length (childrenFast lastChild) > 0)"
      by (cases lastChild) (simp_all add: isNonEmptyList_def)
    then have "lastChildLoop lastChild = lastChild"
      by (auto simp add: lastChildLoop.simps [of lastChild])
    ultimately show ?thesis by simp
  qed
qed

text \<open>
  C1. For every List node, \<^verbatim>\<open>canBeReused\<close> is true when the List has no children;
  otherwise false when the expected closing categories intersect the List's
  \<^verbatim>\<open>unopenedBrackets\<close>; otherwise it is \<^verbatim>\<open>canBeReused\<close>, with the same two arguments,
  of the node reached from the List by repeatedly taking the last child while the current
  node is a List with at least one child. That descent always ends.
\<close>

theorem ListAstNode_canBeReused:
  "\<exists>reached. spec_lastChildChain (ListAstNode r imm len h cs ub) = Some reached \<and>
     canBeReused (ListAstNode r imm len h cs ub) expected endLineDidChange =
       (if cs = [] then True
        else if expected \<inter> unopenedBrackets (ListAstNode r imm len h cs ub) \<noteq> {} then False
        else canBeReused reached expected endLineDidChange)"
  by (simp add: spec_lastChildChain_eq intersects_def)

text \<open>
  C2. For every Pair node and all arguments, \<^verbatim>\<open>canBeReused\<close> is false when the closing
  bracket is absent; otherwise false when the expected closing categories intersect the
  Pair's \<^verbatim>\<open>unopenedBrackets\<close>; otherwise true.
\<close>

theorem PairAstNode_canBeReused:
  "canBeReused (PairAstNode r len cat ob ch cb ub) expected endLineDidChange =
     (if cb = None then False
      else if expected \<inter> unopenedBrackets (PairAstNode r len cat ob ch cb ub) \<noteq> {} then False
      else True)"
  by (simp add: intersects_def)



section \<open>Aggregates of a List\<close>

text \<open>
  What the spec requires of a List's aggregate fields: \<^verbatim>\<open>length\<close> is the left-to-right
  sum of the children's lengths, starting from the zero Length, and
  \<^verbatim>\<open>unopenedBrackets\<close> is the union of the children's sets.
\<close>

definition sumLengths :: "'len::monoid_add AstNode list \<Rightarrow> 'len" where
  "sumLengths items = foldl lengthAdd lengthZero (map node_length items)"

definition unionUnopened :: "'len AstNode list \<Rightarrow> SmallImmutableSet" where
  "unionUnopened items = \<Union> (set (map unopenedBrackets items))"

lemma foldl_lengthAdd: "foldl lengthAdd (a :: 'len::monoid_add) xs = a + sum_list xs"
  by (induction xs arbitrary: a) (simp_all add: lengthAdd_def add.assoc)

lemma sumLengths_sum_list: "sumLengths items = sum_list (map node_length items)"
  by (simp add: sumLengths_def foldl_lengthAdd lengthZero_def)

lemma aggregateLoop_eq:
  "aggregateLoop len ub items = (len + sumLengths items, ub \<union> unionUnopened items)"
proof (induction items arbitrary: len ub)
  case Nil
  show ?case by (simp add: sumLengths_sum_list unionUnopened_def)
next
  case (Cons item rest)
  show ?case
    by (simp add: Cons.IH sumLengths_sum_list unionUnopened_def lengthAdd_def merge_def
        add.assoc Un_assoc)
qed

lemma aggregate_items:
  assumes "items \<noteq> []"
  shows "aggregateLoop (node_length (items ! 0)) (unopenedBrackets (items ! 0))
           (drop (Suc 0) items)
           = (sumLengths items, unionUnopened items)"
proof -
  from assms obtain x xs where items: "items = x # xs" by (cases items) auto
  show ?thesis
    by (simp add: items aggregateLoop_eq sumLengths_sum_list unionUnopened_def)
qed

text \<open>
  C7. \<^verbatim>\<open>ListAstNode.create(items, immutable)\<close> returns a List over \<open>items\<close> whose
  \<^verbatim>\<open>listHeight\<close> is 0 for no items and \<^verbatim>\<open>items[0].listHeight + 1\<close> otherwise, whose
  \<^verbatim>\<open>length\<close> is the left-to-right sum of the items' lengths (zero for no items), whose
  \<^verbatim>\<open>unopenedBrackets\<close> is the union of the items' sets (empty for no items), and which
  is immutable exactly when the flag is set.
\<close>

theorem ListAstNode_create_aggregates:
  "ListAstNode_create items immutable k =
     (ListAstNode k immutable (sumLengths items)
        (if items = [] then 0 else listHeight (items ! 0) + 1) items (unionUnopened items),
      Suc k)
   \<and> sumLengths ([] :: 'len::monoid_add AstNode list) = lengthZero
   \<and> unionUnopened ([] :: 'len AstNode list) = getEmpty"
proof (cases "items = []")
  case True
  then show ?thesis
    by (simp add: ListAstNode_create_def sumLengths_def unionUnopened_def getEmpty_def)
next
  case False
  then show ?thesis
    by (simp add: ListAstNode_create_def aggregate_items sumLengths_def unionUnopened_def
        getEmpty_def)
qed


section \<open>Properties of the mutators\<close>

lemma handleChildrenChanged_nonempty:
  "items \<noteq> [] \<Longrightarrow>
   handleChildrenChanged (ListAstNode r False len h items ub) =
     Inr (ListAstNode r False (sumLengths items) h items (unionUnopened items))"
  by (simp add: aggregate_items)

text \<open>An immutable List rejects every mutator before anything is changed.\<close>

lemma mutators_immutable:
  "appendChildOfSameHeight (ListAstNode r True len h cs ub) node
     = Inl (Error ''this instance is immutable'')"
  "prependChildOfSameHeight (ListAstNode r True len h cs ub) node
     = Inl (Error ''this instance is immutable'')"
  "unappendChild (ListAstNode r True len h cs ub) = Inl (Error ''this instance is immutable'')"
  "unprependChild (ListAstNode r True len h cs ub) = Inl (Error ''this instance is immutable'')"
  by simp_all

text \<open>
  On a mutable List, appending and prepending always leave the aggregates equal to the
  sum and the union over the new children; removing a child does so when a child is left.
\<close>

lemma appendChildOfSameHeight_mutable:
  "appendChildOfSameHeight (ListAstNode r False len h cs ub) node =
     Inr (ListAstNode r False (sumLengths (cs @ [node])) h (cs @ [node])
            (unionUnopened (cs @ [node])))"
  by (simp del: handleChildrenChanged.simps add: handleChildrenChanged_nonempty)

lemma prependChildOfSameHeight_mutable:
  "prependChildOfSameHeight (ListAstNode r False len h cs ub) node =
     Inr (ListAstNode r False (sumLengths (node # cs)) h (node # cs)
            (unionUnopened (node # cs)))"
  by (simp del: handleChildrenChanged.simps add: handleChildrenChanged_nonempty)

lemma unappendChild_mutable:
  "butlast cs \<noteq> [] \<Longrightarrow>
   unappendChild (ListAstNode r False len h cs ub) =
     Inr (Some (last cs),
          ListAstNode r False (sumLengths (butlast cs)) h (butlast cs)
            (unionUnopened (butlast cs)))"
  by (auto simp del: handleChildrenChanged.simps simp add: handleChildrenChanged_nonempty)

lemma unprependChild_mutable:
  "tl cs \<noteq> [] \<Longrightarrow>
   unprependChild (ListAstNode r False len h cs ub) =
     Inr (Some (hd cs),
          ListAstNode r False (sumLengths (tl cs)) h (tl cs) (unionUnopened (tl cs)))"
  by (auto simp del: handleChildrenChanged.simps simp add: handleChildrenChanged_nonempty)

text \<open>
  C3. After a mutator completes on a mutable List, its \<^verbatim>\<open>length\<close> should be the sum of
  its current children's lengths (zero when there are none) and its
  \<^verbatim>\<open>unopenedBrackets\<close> the union of their sets (empty when there are none). Removing
  the only child breaks this: \<^verbatim>\<open>handleChildrenChanged\<close> returns early on an empty child
  array, so the List built by \<^verbatim>\<open>ListAstNode.create\<close> over one unexpected closing bracket
  of length 1 and category 2 keeps length 1 and the set \<open>{2}\<close> with no child left.
\<close>

theorem unappendChild_stale_aggregates:
  "unappendChild (fst (ListAstNode_create [InvalidBracketAstNode 0 (1::nat) {2}] False 1)) =
     Inr (Some (InvalidBracketAstNode 0 1 {2}), ListAstNode 1 False 1 1 [] {2})
   \<and> unprependChild (fst (ListAstNode_create [InvalidBracketAstNode 0 (1::nat) {2}] False 1)) =
     Inr (Some (InvalidBracketAstNode 0 1 {2}), ListAstNode 1 False 1 1 [] {2})
   \<and> node_length (ListAstNode 1 False (1::nat) 1 [] {2})
       \<noteq> sumLengths (children (ListAstNode 1 False (1::nat) 1 [] {2}))
   \<and> unopenedBrackets (ListAstNode 1 False (1::nat) 1 [] {2})
       \<noteq> unionUnopened (children (ListAstNode 1 False (1::nat) 1 [] {2}))"
  by (simp add: ListAstNode_create_def sumLengths_def unionUnopened_def lengthZero_def
      lengthAdd_def merge_def getEmpty_def)

text \<open>
  C4. An immutable List rejects every mutator with the error "this instance is
  immutable", and the same mutation on the node returned by its \<^verbatim>\<open>toMutable()\<close> should
  succeed and leave the aggregates consistent with the new children. The first half holds
  (\<open>mutators_immutable\<close>), and so does the second for appending and prepending; removing
  the only child of the mutable copy succeeds but leaves length 1 and the set \<open>{2}\<close> on
  a List without children, by the same early return.
\<close>

theorem toMutable_unappendChild_stale_aggregates:
  "unappendChild (fst (ListAstNode_create [InvalidBracketAstNode 0 (1::nat) {2}] True 1)) =
     Inl (Error ''this instance is immutable'')
   \<and> toMutable (fst (ListAstNode_create [InvalidBracketAstNode 0 (1::nat) {2}] True 1)) 2 =
     (ListAstNode 2 False 1 1 [InvalidBracketAstNode 0 1 {2}] {2}, 3)
   \<and> unappendChild (ListAstNode 2 False 1 1 [InvalidBracketAstNode 0 (1::nat) {2}] {2}) =
     Inr (Some (InvalidBracketAstNode 0 1 {2}), ListAstNode 2 False 1 1 [] {2})
   \<and> unprependChild (ListAstNode 2 False 1 1 [InvalidBracketAstNode 0 (1::nat) {2}] {2}) =
     Inr (Some (InvalidBracketAstNode 0 1 {2}), ListAstNode 2 False 1 1 [] {2})
   \<and> node_length (ListAstNode 2 False (1::nat) 1 [] {2})
       \<noteq> sumLengths (children (ListAstNode 2 False (1::nat) 1 [] {2}))
   \<and> unopenedBrackets (ListAstNode 2 False (1::nat) 1 [] {2})
       \<noteq> unionUnopened (children (ListAstNode 2 False (1::nat) 1 [] {2}))"
  by (simp add: ListAstNode_create_def sumLengths_def unionUnopened_def lengthZero_def
      lengthAdd_def merge_def getEmpty_def numeral_3_eq_3)

text \<open>Whether a node is an object of the subclass \<^verbatim>\<open>ImmutableListAstNode\<close>.\<close>

fun isImmutableList :: "'len AstNode \<Rightarrow> bool" where
  "isImmutableList (ListAstNode r imm len h cs ub) = imm"
| "isImmutableList n = False"

text \<open>
  C9. For an immutable List, \<^verbatim>\<open>toMutable()\<close> returns a newly allocated mutable List
  with the same \<^verbatim>\<open>length\<close>, \<^verbatim>\<open>listHeight\<close> and \<^verbatim>\<open>unopenedBrackets\<close> and with the
  very same children, in the same order (their references included: no child is cloned).
  For every other node it returns the node itself and allocates nothing.
\<close>

theorem toMutable_shallow_copy:
  "toMutable n k =
     (if isImmutableList n
      then (ListAstNode k False (node_length n) (listHeight n) (children n)
              (unopenedBrackets n), Suc k)
      else (n, k))"
  by (cases n) simp_all

text \<open>
  C10. \<^verbatim>\<open>deepClone()\<close> of a List, immutable or not, returns a List of the mutable
  variant with the same aggregate fields, and each of the four mutators succeeds on it.
\<close>

theorem deepClone_List_is_mutable:
  "\<exists>cs' k'. deepClone (ListAstNode r imm len h cs ub) k = (ListAstNode k' False len h cs' ub, Suc k')
     \<and> throwIfImmutable (fst (deepClone (ListAstNode r imm len h cs ub) k)) = Inr ()
     \<and> (\<exists>this. appendChildOfSameHeight (fst (deepClone (ListAstNode r imm len h cs ub) k)) node
                 = Inr this)
     \<and> (\<exists>this. prependChildOfSameHeight (fst (deepClone (ListAstNode r imm len h cs ub) k)) node
                 = Inr this)
     \<and> (\<exists>res. unappendChild (fst (deepClone (ListAstNode r imm len h cs ub) k)) = Inr res)
     \<and> (\<exists>res. unprependChild (fst (deepClone (ListAstNode r imm len h cs ub) k)) = Inr res)"
proof -
  obtain cs' k' where c: "clone cs k = (cs', k')" by (cases "clone cs k")
  then have d: "deepClone (ListAstNode r imm len h cs ub) k
                  = (ListAstNode k' False len h cs' ub, Suc k')"
    by simp
  have "\<exists>res. unappendChild (ListAstNode k' False len h cs' ub) = Inr res"
    by (simp split: prod.splits)
  moreover have "\<exists>res. unprependChild (ListAstNode k' False len h cs' ub) = Inr res"
    by (simp split: prod.splits)
  ultimately show ?thesis
    unfolding d
    by (simp only: fst_conv appendChildOfSameHeight_mutable prependChildOfSameHeight_mutable
        throwIfImmutable.simps if_False) blast
qed



section \<open>Interning of Bracket leaves\<close>

text \<open>
  The static \<^verbatim>\<open>cacheByLength\<close>, a \<^verbatim>\<open>Map<number, BracketAstNode>\<close>.
\<close>

type_synonym 'len cache = "int \<rightharpoonup> 'len BracketAstNode"

text \<open>
  \<^verbatim>\<open>BracketAstNode.create\<close>, with the cache and the next free reference passed in and
  returned. \<^verbatim>\<open>lengthHash\<close> of the absent module \<^verbatim>\<open>./length\<close> is a parameter.
\<close>

definition BracketAstNode_create ::
  "('len \<Rightarrow> int) \<Rightarrow> 'len \<Rightarrow> 'len cache \<Rightarrow> ref \<Rightarrow> 'len BracketAstNode \<times> 'len cache \<times> ref"
where
  "BracketAstNode_create lengthHash len cacheByLength k =
     (let lengthKey = lengthHash len
      in case cacheByLength lengthKey of
           Some cached \<Rightarrow> (cached, cacheByLength, k)
         | None \<Rightarrow>
             (let node = BracketAstNode k len
              in (node, cacheByLength(lengthKey \<mapsto> node), Suc k)))"

text \<open>
  A program that calls \<^verbatim>\<open>BracketAstNode.create\<close> again and again: each call comes with
  the number of other objects allocated since the previous one. The result lists the
  returned nodes, call by call.
\<close>

fun createSeq ::
  "('len \<Rightarrow> int) \<Rightarrow> (nat \<times> 'len) list \<Rightarrow> 'len cache \<Rightarrow> ref
     \<Rightarrow> 'len BracketAstNode list \<times> 'len cache \<times> ref"
where
  "createSeq lengthHash [] cacheByLength k = ([], cacheByLength, k)"
| "createSeq lengthHash ((others, len) # calls) cacheByLength k =
     (case BracketAstNode_create lengthHash len cacheByLength (k + others) of
        (node, cache', k') \<Rightarrow>
          (case createSeq lengthHash calls cache' k' of
             (nodes, cache'', k'') \<Rightarrow> (node # nodes, cache'', k'')))"

text \<open>
  What \<^verbatim>\<open>BracketAstNode.create\<close> maintains: cached nodes were allocated earlier, and
  different keys hold different instances.
\<close>

definition cache_inv :: "'len cache \<Rightarrow> ref \<Rightarrow> bool" where
  "cache_inv c k =
     ((\<forall>key n. c key = Some n \<longrightarrow> bracket_ref n < k)
      \<and> (\<forall>key key' n n'. c key = Some n \<longrightarrow> c key' = Some n' \<longrightarrow> key \<noteq> key'
            \<longrightarrow> bracket_ref n \<noteq> bracket_ref n'))"

lemma create_inv:
  assumes "cache_inv c k" "k \<le> k0"
    and "BracketAstNode_create lengthHash len c k0 = (node, c', k')"
  shows "cache_inv c' k'" "c \<subseteq>\<^sub>m c'" "c' (lengthHash len) = Some node" "k0 \<le> k'"
proof -
  show "cache_inv c' k'"
  proof (cases "c (lengthHash len)")
    case None
    then have c': "c' = c(lengthHash len \<mapsto> BracketAstNode k0 len)" and k': "k' = Suc k0"
      using assms(3) by (auto simp: BracketAstNode_create_def Let_def)
    have lt: "\<And>key n. c key = Some n \<Longrightarrow> bracket_ref n < k0"
      using assms(1,2) unfolding cache_inv_def by fastforce
    show ?thesis
      unfolding cache_inv_def c' k'
      using assms(1) lt unfolding cache_inv_def
      by (auto simp: less_Suc_eq split: if_splits)
  next
    case (Some cached)
    then have "c' = c" "k' = k0"
      using assms(3) by (auto simp: BracketAstNode_create_def Let_def)
    then show ?thesis using assms(1,2) unfolding cache_inv_def by fastforce
  qed
  show "c \<subseteq>\<^sub>m c'" using assms(3)
    by (auto simp: BracketAstNode_create_def Let_def map_le_def split: option.splits)
  show "c' (lengthHash len) = Some node" using assms(3)
    by (auto simp: BracketAstNode_create_def Let_def split: option.splits)
  show "k0 \<le> k'" using assms(3)
    by (auto simp: BracketAstNode_create_def Let_def split: option.splits)
qed

lemma createSeq_inv:
  assumes "cache_inv c k"
    and "createSeq lengthHash calls c k = (nodes, c', k')"
  shows "cache_inv c' k' \<and> c \<subseteq>\<^sub>m c'
         \<and> list_all2 (\<lambda>call node. c' (lengthHash (snd call)) = Some node) calls nodes"
  using assms
proof (induction calls arbitrary: c k nodes c' k')
  case Nil
  then show ?case by simp
next
  case (Cons call calls)
  obtain others len where call: "call = (others, len)" by (cases call)
  obtain node c1 k1 where b: "BracketAstNode_create lengthHash len c (k + others) = (node, c1, k1)"
    by (cases "BracketAstNode_create lengthHash len c (k + others)")
  obtain nodes1 c2 k2 where s: "createSeq lengthHash calls c1 k1 = (nodes1, c2, k2)"
    by (cases "createSeq lengthHash calls c1 k1")
  from Cons.prems(2) call b s have eqs: "nodes = node # nodes1" "c' = c2" "k' = k2" by simp_all
  have le: "k \<le> k + others" by simp
  note cr = create_inv [OF Cons.prems(1) le b]
  from Cons.IH [OF cr(1) s]
  have ih: "cache_inv c2 k2" "c1 \<subseteq>\<^sub>m c2"
    "list_all2 (\<lambda>call node. c2 (lengthHash (snd call)) = Some node) calls nodes1"
    by simp_all
  have "c2 (lengthHash len) = Some node"
    using cr(3) ih(2) by (auto simp: map_le_def dom_def)
  moreover have "c \<subseteq>\<^sub>m c2" using cr(2) ih(2) by (rule map_le_trans)
  ultimately show ?case using ih eqs call by simp
qed

text \<open>
  C6. Among the calls of \<^verbatim>\<open>BracketAstNode.create\<close> made since the cache was empty, two
  calls with equal lengths return the same instance, and two calls with different lengths
  return distinct instances. The second half needs a \<^verbatim>\<open>lengthHash\<close> that tells
  different lengths apart, which the spec asks of the Length type (a hash "suitable for
  cache keys").
\<close>

theorem BracketAstNode_create_interning:
  assumes "inj lengthHash"
    and "i < length calls" and "j < length calls"
  shows "(snd (calls ! i) = snd (calls ! j)
            \<longrightarrow> fst (createSeq lengthHash calls Map.empty k) ! i
                = fst (createSeq lengthHash calls Map.empty k) ! j)
       \<and> (snd (calls ! i) \<noteq> snd (calls ! j)
            \<longrightarrow> bracket_ref (fst (createSeq lengthHash calls Map.empty k) ! i)
                \<noteq> bracket_ref (fst (createSeq lengthHash calls Map.empty k) ! j))"
proof -
  obtain nodes c' k' where s: "createSeq lengthHash calls Map.empty k = (nodes, c', k')"
    by (cases "createSeq lengthHash calls Map.empty k")
  have "cache_inv Map.empty k" by (simp add: cache_inv_def)
  from createSeq_inv [OF this s]
  have inv: "cache_inv c' k'"
    and all: "list_all2 (\<lambda>call node. c' (lengthHash (snd call)) = Some node) calls nodes"
    by simp_all
  from all assms(2,3) have
    i: "c' (lengthHash (snd (calls ! i))) = Some (nodes ! i)" and
    j: "c' (lengthHash (snd (calls ! j))) = Some (nodes ! j)"
    by (simp_all add: list_all2_conv_all_nth)
  have "nodes ! i = nodes ! j" if "snd (calls ! i) = snd (calls ! j)"
    using i j that by simp
  moreover have "bracket_ref (nodes ! i) \<noteq> bracket_ref (nodes ! j)"
    if "snd (calls ! i) \<noteq> snd (calls ! j)"
  proof -
    from that assms(1) have "lengthHash (snd (calls ! i)) \<noteq> lengthHash (snd (calls ! j))"
      by (auto dest: injD)
    with inv i j show ?thesis unfolding cache_inv_def by blast
  qed
  ultimately show ?thesis by (simp add: s)
qed

theorem BracketAstNode_create_interning_witness:
  "inj (\<lambda>n :: nat. int n) \<and> (0::nat) < length [(0::nat, 1::nat), (2, 3), (0, 1)]
   \<and> fst (createSeq (\<lambda>n. int n) [(0, 1::nat), (2, 3), (0, 1)] Map.empty 5) ! 0
       = fst (createSeq (\<lambda>n. int n) [(0, 1::nat), (2, 3), (0, 1)] Map.empty 5) ! 2
   \<and> bracket_ref (fst (createSeq (\<lambda>n. int n) [(0, 1::nat), (2, 3), (0, 1)] Map.empty 5) ! 0)
       \<noteq> bracket_ref (fst (createSeq (\<lambda>n. int n) [(0, 1::nat), (2, 3), (0, 1)] Map.empty 5) ! 1)"
proof -
  have inj: "inj (\<lambda>n :: nat. int n)" by (simp add: inj_def)
  have l0: "(0::nat) < length [(0::nat, 1::nat), (2, 3), (0, 1)]" by simp
  have l1: "(1::nat) < length [(0::nat, 1::nat), (2, 3), (0, 1)]" by simp
  have l2: "(2::nat) < length [(0::nat, 1::nat), (2, 3), (0, 1)]" by simp
  from BracketAstNode_create_interning [OF inj l0 l2, of 5]
       BracketAstNode_create_interning [OF inj l0 l1, of 5] inj l0
  show ?thesis by simp
qed


section \<open>Properties of deepClone\<close>

text \<open>The references of all objects in a tree.\<close>

fun refs :: "'len AstNode \<Rightarrow> ref set" where
  "refs (TextAstNode r len) = {r}"
| "refs (BracketNode b) = {bracket_ref b}"
| "refs (InvalidBracketAstNode r len ub) = {r}"
| "refs (PairAstNode r len cat ob ch cb ub) =
     {r, bracket_ref ob}
     \<union> (case ch of None \<Rightarrow> {} | Some c \<Rightarrow> refs c)
     \<union> (case cb of None \<Rightarrow> {} | Some b \<Rightarrow> {bracket_ref b})"
| "refs (ListAstNode r imm len h cs ub) = {r} \<union> \<Union> (set (map refs cs))"

text \<open>The references of the Pair and List objects in a tree.\<close>

fun compositeRefs :: "'len AstNode \<Rightarrow> ref set" where
  "compositeRefs (PairAstNode r len cat ob ch cb ub) =
     {r} \<union> (case ch of None \<Rightarrow> {} | Some c \<Rightarrow> compositeRefs c)"
| "compositeRefs (ListAstNode r imm len h cs ub) = {r} \<union> \<Union> (set (map compositeRefs cs))"
| "compositeRefs n = {}"

text \<open>
  A tree up to the identity of its Pair and List objects and up to the variant of its
  Lists: every Pair and List reference is reset and every List taken as mutable, while the
  leaves stay as they are, references included.
\<close>

fun structure_of :: "'len AstNode \<Rightarrow> 'len AstNode" where
  "structure_of (PairAstNode r len cat ob ch cb ub) =
     PairAstNode 0 len cat ob (map_option structure_of ch) cb ub"
| "structure_of (ListAstNode r imm len h cs ub) =
     ListAstNode 0 False len h (map structure_of cs) ub"
| "structure_of n = n"

lemma deepClone_clone_props:
  "k \<le> snd (deepClone (x :: 'len AstNode) k)
     \<and> structure_of (fst (deepClone x k)) = structure_of x
     \<and> compositeRefs (fst (deepClone x k)) \<subseteq> {k ..< snd (deepClone x k)}"
  "k \<le> snd (clone (xs :: 'len AstNode list) k)
     \<and> map structure_of (fst (clone xs k)) = map structure_of xs
     \<and> \<Union> (set (map compositeRefs (fst (clone xs k)))) \<subseteq> {k ..< snd (clone xs k)}"
proof (induction x k and xs k rule: deepClone_clone.induct)
  case (4 r len cat ob ch cb ub k)
  show ?case
  proof (cases ch)
    case None
    then show ?thesis by simp
  next
    case (Some c)
    obtain c' k' where d: "deepClone c k = (c', k')" by (cases "deepClone c k")
    from 4 [OF Some] d have "k \<le> k'" "structure_of c' = structure_of c"
      "compositeRefs c' \<subseteq> {k ..< k'}" by simp_all
    then show ?thesis using Some d by auto
  qed
next
  case (5 r imm len h cs ub k)
  obtain cs' k' where d: "clone cs k = (cs', k')" by (cases "clone cs k")
  from 5 d have "k \<le> k'" "map structure_of cs' = map structure_of cs"
    "\<Union> (set (map compositeRefs cs')) \<subseteq> {k ..< k'}" by simp_all
  then show ?case using d by auto
next
  case (7 c arr k)
  obtain c' k1 where d1: "deepClone c k = (c', k1)" by (cases "deepClone c k")
  obtain arr' k2 where d2: "clone arr k1 = (arr', k2)" by (cases "clone arr k1")
  from 7(1) d1 have a: "k \<le> k1" "structure_of c' = structure_of c"
    "compositeRefs c' \<subseteq> {k ..< k1}" by simp_all
  from 7(2) [OF d1 [symmetric]] d2 have b: "k1 \<le> k2" "map structure_of arr' = map structure_of arr"
    "\<Union> (set (map compositeRefs arr')) \<subseteq> {k1 ..< k2}" by simp_all
  have "k \<le> k2" using a b by simp
  moreover have "compositeRefs c' \<subseteq> {k ..< k2}" using a b by auto
  moreover have "\<Union> (set (map compositeRefs arr')) \<subseteq> {k ..< k2}"
  proof -
    have "{k1 ..< k2} \<subseteq> {k ..< k2}" using a by auto
    with b(3) show ?thesis by blast
  qed
  ultimately show ?case using d1 d2 a b by simp
qed simp_all

lemma structure_of_getters:
  "kind (structure_of n) = kind n"
  "node_length (structure_of n) = node_length n"
  "listHeight (structure_of n) = listHeight n"
  "unopenedBrackets (structure_of n) = unopenedBrackets n"
  by (cases n; simp)+

lemma structure_of_leaf:
  "kind n \<noteq> PairKind \<Longrightarrow> kind n \<noteq> ListKind \<Longrightarrow> structure_of n = n"
  by (cases n) simp_all

text \<open>
  C5, as stated: \<^verbatim>\<open>deepClone()\<close> returns a structurally equal tree that shares no node
  instance with the original. The leaves are shared: cloning a List over one Text leaf
  gives a new List over the same Text object.
\<close>

theorem deepClone_shares_leaves:
  "deepClone (ListAstNode 1 False (1::nat) 1 [TextAstNode 0 1] {}) 2 =
     (ListAstNode 2 False 1 1 [TextAstNode 0 1] {}, 3)
   \<and> 0 \<in> refs (fst (deepClone (ListAstNode 1 False (1::nat) 1 [TextAstNode 0 1] {}) 2))
         \<inter> refs (ListAstNode 1 False (1::nat) 1 [TextAstNode 0 1] {})"
  by (simp add: numeral_3_eq_3)

text \<open>
  C5, amended. For a tree whose objects were all allocated before the call,
  \<^verbatim>\<open>deepClone()\<close> returns a tree that is structurally equal to the original (same kind,
  length, listHeight, unopenedBrackets, and recursively so for the children, the leaves
  being the same objects), in which no Pair or List object is an object of the original;
  a leaf is returned as it is.
\<close>

theorem deepClone_fresh_composites:
  assumes "\<forall>r \<in> refs x. r < k"
  shows "structure_of (fst (deepClone x k)) = structure_of x
       \<and> kind (fst (deepClone x k)) = kind x
       \<and> node_length (fst (deepClone x k)) = node_length x
       \<and> listHeight (fst (deepClone x k)) = listHeight x
       \<and> unopenedBrackets (fst (deepClone x k)) = unopenedBrackets x
       \<and> compositeRefs (fst (deepClone x k)) \<inter> refs x = {}
       \<and> (kind x = PairKind \<or> kind x = ListKind \<or> fst (deepClone x k) = x)"
proof -
  have s: "structure_of (fst (deepClone x k)) = structure_of x"
    and f: "compositeRefs (fst (deepClone x k)) \<subseteq> {k ..< snd (deepClone x k)}"
    using deepClone_clone_props(1) [of k x] by simp_all
  have "kind (fst (deepClone x k)) = kind x"
    using structure_of_getters(1) [of "fst (deepClone x k)"] structure_of_getters(1) [of x] s
    by simp
  moreover have "node_length (fst (deepClone x k)) = node_length x"
    using structure_of_getters(2) [of "fst (deepClone x k)"] structure_of_getters(2) [of x] s
    by simp
  moreover have "listHeight (fst (deepClone x k)) = listHeight x"
    using structure_of_getters(3) [of "fst (deepClone x k)"] structure_of_getters(3) [of x] s
    by simp
  moreover have "unopenedBrackets (fst (deepClone x k)) = unopenedBrackets x"
    using structure_of_getters(4) [of "fst (deepClone x k)"] structure_of_getters(4) [of x] s
    by simp
  moreover have "compositeRefs (fst (deepClone x k)) \<inter> refs x = {}"
    using f assms by fastforce
  moreover have "kind x = PairKind \<or> kind x = ListKind \<or> fst (deepClone x k) = x"
    by (cases x) simp_all
  ultimately show ?thesis using s by simp
qed

theorem deepClone_fresh_composites_witness:
  "refs (ListAstNode 3 True (3::nat) 1
        [TextAstNode 0 1,
         PairAstNode 2 2 7 (BracketAstNode 1 1) None (Some (BracketAstNode 1 1)) {}] {})
      = {3, 0, 2, 1}
   \<and> deepClone (ListAstNode 3 True (3::nat) 1
        [TextAstNode 0 1,
         PairAstNode 2 2 7 (BracketAstNode 1 1) None (Some (BracketAstNode 1 1)) {}] {}) 4
      = (ListAstNode 5 False 3 1
           [TextAstNode 0 1,
            PairAstNode 4 2 7 (BracketAstNode 1 1) None (Some (BracketAstNode 1 1)) {}] {}, 6)
   \<and> compositeRefs (fst (deepClone (ListAstNode 3 True (3::nat) 1
        [TextAstNode 0 1,
         PairAstNode 2 2 7 (BracketAstNode 1 1) None (Some (BracketAstNode 1 1)) {}] {}) 4))
      \<inter> refs (ListAstNode 3 True (3::nat) 1
        [TextAstNode 0 1,
         PairAstNode 2 2 7 (BracketAstNode 1 1) None (Some (BracketAstNode 1 1)) {}] {}) = {}"
proof -
  have h: "\<forall>r \<in> refs (ListAstNode 3 True (3::nat) 1
        [TextAstNode 0 1,
         PairAstNode 2 2 7 (BracketAstNode 1 1) None (Some (BracketAstNode 1 1)) {}] {}). r < 4"
    by simp
  have e: "deepClone (ListAstNode 3 True (3::nat) 1
        [TextAstNode 0 1,
         PairAstNode 2 2 7 (BracketAstNode 1 1) None (Some (BracketAstNode 1 1)) {}] {}) 4
      = (ListAstNode 5 False 3 1
           [TextAstNode 0 1,
            PairAstNode 4 2 7 (BracketAstNode 1 1) None (Some (BracketAstNode 1 1)) {}] {}, 6)"
    by (simp add: eval_nat_numeral)
  have r: "refs (ListAstNode 3 True (3::nat) 1
        [TextAstNode 0 1,
         PairAstNode 2 2 7 (BracketAstNode 1 1) None (Some (BracketAstNode 1 1)) {}] {})
      = {3, 0, 2, 1}"
    by auto
  from deepClone_fresh_composites [OF h] r e show ?thesis by blast
qed


section \<open>Properties of flattenLists\<close>

text \<open>No List in the tree has a List as a child.\<close>

fun noNestedLists :: "'len AstNode \<Rightarrow> bool" where
  "noNestedLists (PairAstNode r len cat ob ch cb ub) =
     (case ch of None \<Rightarrow> True | Some c \<Rightarrow> noNestedLists c)"
| "noNestedLists (ListAstNode r imm len h cs ub) =
     (\<forall>c \<in> set cs. kind c \<noteq> ListKind \<and> noNestedLists c)"
| "noNestedLists n = True"

text \<open>
  The invariant of the data model on the stored aggregates, throughout a tree: a Pair holds
  what \<^verbatim>\<open>PairAstNode.create\<close> computes from its parts, a List the sum and the union
  over its children.
\<close>

fun consistent :: "'len::monoid_add AstNode \<Rightarrow> bool" where
  "consistent (PairAstNode r len cat ob ch cb ub) =
     (len = computeLength ob ch cb
      \<and> ub = (case ch of None \<Rightarrow> getEmpty | Some c \<Rightarrow> unopenedBrackets c)
      \<and> (case ch of None \<Rightarrow> True | Some c \<Rightarrow> consistent c))"
| "consistent (ListAstNode r imm len h cs ub) =
     (len = sumLengths cs \<and> ub = unionUnopened cs \<and> (\<forall>c \<in> set cs. consistent c))"
| "consistent n = True"

lemma sumLengths_append: "sumLengths (xs @ ys) = sumLengths xs + sumLengths ys"
  by (simp add: sumLengths_sum_list)

lemma unionUnopened_append: "unionUnopened (xs @ ys) = unionUnopened xs \<union> unionUnopened ys"
  by (simp add: unionUnopened_def)

lemma sumLengths_single: "sumLengths [n] = node_length n"
  by (simp add: sumLengths_sum_list)

lemma unionUnopened_single: "unionUnopened [n] = unopenedBrackets n"
  by (simp add: unionUnopened_def)

text \<open>What one round of the loop of \<^verbatim>\<open>flattenLists\<close> pushes.\<close>

definition pushedItems :: "'len AstNode \<Rightarrow> 'len AstNode list" where
  "pushedItems normalized = (if kind normalized = ListKind then children normalized else [normalized])"

lemma pushedItems_props:
  assumes "consistent n" "noNestedLists n"
  shows "\<forall>c \<in> set (pushedItems n). consistent c \<and> kind c \<noteq> ListKind \<and> noNestedLists c"
    and "sumLengths (pushedItems n) = node_length n"
    and "unionUnopened (pushedItems n) = unopenedBrackets n"
  using assms
  by (cases n; simp add: pushedItems_def sumLengths_single unionUnopened_single)+

lemma create_List_fst:
  "fst (ListAstNode_create items False k) =
     ListAstNode k False (sumLengths items)
       (if items = [] then 0 else listHeight (items ! 0) + 1) items (unionUnopened items)"
proof (cases "items = []")
  case True
  then show ?thesis
    by (simp add: ListAstNode_create_def sumLengths_def unionUnopened_def getEmpty_def)
next
  case False
  then show ?thesis
    by (simp add: ListAstNode_create_def aggregate_items)
qed

lemma flatten_normal:
  "consistent (fst (flattenLists (x :: 'len::monoid_add AstNode) k))
     \<and> noNestedLists (fst (flattenLists x k))"
  "\<forall>c \<in> set (fst (flattenLoop (xs :: 'len AstNode list) k)).
      consistent c \<and> kind c \<noteq> ListKind \<and> noNestedLists c"
proof (induction x k and xs k rule: flattenLists_flattenLoop.induct)
  case (4 r len cat ob ch cb ub k)
  show ?case
  proof (cases ch)
    case None
    then show ?thesis by (simp add: PairAstNode_create_def)
  next
    case (Some c)
    obtain c' k' where f: "flattenLists c k = (c', k')" by (cases "flattenLists c k")
    from 4 [OF Some] f have "consistent c'" "noNestedLists c'" by simp_all
    then show ?thesis using Some f by (simp add: PairAstNode_create_def)
  qed
next
  case (5 r imm len h cs ub k)
  obtain items k' where f: "flattenLoop cs k = (items, k')" by (cases "flattenLoop cs k")
  from 5 f have "\<forall>c \<in> set items. consistent c \<and> kind c \<noteq> ListKind \<and> noNestedLists c"
    by simp
  then show ?case using f by (simp add: create_List_fst)
next
  case (7 c rest k)
  obtain normalized k1 where f1: "flattenLists c k = (normalized, k1)"
    by (cases "flattenLists c k")
  obtain items k2 where f2: "flattenLoop rest k1 = (items, k2)"
    by (cases "flattenLoop rest k1")
  from 7(1) f1 have n: "consistent normalized" "noNestedLists normalized" by simp_all
  from 7(2) [OF f1 [symmetric]] f2
  have r: "\<forall>c \<in> set items. consistent c \<and> kind c \<noteq> ListKind \<and> noNestedLists c" by simp
  have "fst (flattenLoop (c # rest) k) = pushedItems normalized @ items"
    using f1 f2 by (simp add: pushedItems_def)
  then show ?case using pushedItems_props(1) [OF n] r by auto
qed simp_all

lemma flatten_preserves:
  "consistent (x :: 'len::monoid_add AstNode) \<Longrightarrow>
     node_length (fst (flattenLists x k)) = node_length x
     \<and> unopenedBrackets (fst (flattenLists x k)) = unopenedBrackets x"
  "\<forall>c \<in> set (xs :: 'len AstNode list). consistent c \<Longrightarrow>
     sumLengths (fst (flattenLoop xs k)) = sumLengths xs
     \<and> unionUnopened (fst (flattenLoop xs k)) = unionUnopened xs"
proof (induction x k and xs k rule: flattenLists_flattenLoop.induct)
  case (4 r len cat ob ch cb ub k)
  show ?case
  proof (cases ch)
    case None
    then show ?thesis using 4(2) by (simp add: PairAstNode_create_def)
  next
    case (Some c)
    obtain c' k' where f: "flattenLists c k = (c', k')" by (cases "flattenLists c k")
    from 4(2) Some have "consistent c" by simp
    from 4(1) [OF Some this] f
    have "node_length c' = node_length c" "unopenedBrackets c' = unopenedBrackets c" by simp_all
    then show ?thesis using Some f 4(2) by (simp add: PairAstNode_create_def)
  qed
next
  case (5 r imm len h cs ub k)
  obtain items k' where f: "flattenLoop cs k = (items, k')" by (cases "flattenLoop cs k")
  from 5(2) have "\<forall>c \<in> set cs. consistent c" by simp
  from 5(1) [OF this] f
  have "sumLengths items = sumLengths cs" "unionUnopened items = unionUnopened cs" by simp_all
  then show ?case using f 5(2) by (simp add: create_List_fst)
next
  case (7 c rest k)
  obtain normalized k1 where f1: "flattenLists c k = (normalized, k1)"
    by (cases "flattenLists c k")
  obtain items k2 where f2: "flattenLoop rest k1 = (items, k2)"
    by (cases "flattenLoop rest k1")
  from 7(3) have c: "consistent c" and rest: "\<forall>c \<in> set rest. consistent c" by simp_all
  from 7(1) [OF c] f1
  have n: "node_length normalized = node_length c"
    "unopenedBrackets normalized = unopenedBrackets c" by simp_all
  from 7(2) [OF f1 [symmetric] rest] f2
  have r: "sumLengths items = sumLengths rest" "unionUnopened items = unionUnopened rest"
    by simp_all
  from flatten_normal(1) [of c k] f1
  have nn: "consistent normalized" "noNestedLists normalized" by simp_all
  have "fst (flattenLoop (c # rest) k) = pushedItems normalized @ items"
    using f1 f2 by (simp add: pushedItems_def)
  then show ?case
    using pushedItems_props(2,3) [OF nn] n r
    by (simp add: sumLengths_append unionUnopened_append sumLengths_sum_list unionUnopened_def)
qed simp_all

text \<open>
  C8, as stated: for every node, flattening twice preserves the length. It does not when
  a stored aggregate is out of date. A List is mutable and has no link to its parent:
  after \<^verbatim>\<open>inner = ListAstNode.create([text0])\<close>, \<^verbatim>\<open>outer = ListAstNode.create([inner])\<close>
  and \<^verbatim>\<open>inner.appendChildOfSameHeight(text1)\<close>, with two Text leaves of length 1, the
  outer List still has length 1 over an inner List of length 2, and flattening recomputes
  the length as 2.
\<close>

theorem flattenLists_recomputes_length:
  "node_length
     (fst (flattenLists
        (fst (flattenLists
           (ListAstNode 3 False 1 2
              [ListAstNode 2 False 2 1 [TextAstNode 0 (1::nat), TextAstNode 1 1] {}] {}) 4))
        (snd (flattenLists
           (ListAstNode 3 False 1 2
              [ListAstNode 2 False 2 1 [TextAstNode 0 (1::nat), TextAstNode 1 1] {}] {}) 4))))
   \<noteq> node_length
       (ListAstNode 3 False 1 2
          [ListAstNode 2 False 2 1 [TextAstNode 0 (1::nat), TextAstNode 1 1] {}] {})"
  by (simp add: ListAstNode_create_def lengthAdd_def merge_def getEmpty_def)

text \<open>
  C8, amended. For every node \<open>x\<close>, \<^verbatim>\<open>flattenLists(flattenLists(x))\<close> is a tree in
  which no List has a List child; and when the stored aggregates of \<open>x\<close> are consistent
  throughout, its length and unopenedBrackets equal those of \<open>x\<close>.
\<close>

theorem flattenLists_twice:
  "case flattenLists x k of
     (y, k1) \<Rightarrow>
       (case flattenLists y k1 of
          (z, k2) \<Rightarrow>
            noNestedLists z
            \<and> (consistent x \<longrightarrow>
                 node_length z = node_length x \<and> unopenedBrackets z = unopenedBrackets x))"
proof -
  obtain y k1 where f1: "flattenLists x k = (y, k1)" by (cases "flattenLists x k")
  obtain z k2 where f2: "flattenLists y k1 = (z, k2)" by (cases "flattenLists y k1")
  from flatten_normal(1) [of x k] f1 have y: "consistent y" by simp
  from flatten_normal(1) [of y k1] f2 have z: "noNestedLists z" by simp
  have "node_length z = node_length x \<and> unopenedBrackets z = unopenedBrackets x"
    if "consistent x"
    using flatten_preserves(1) [OF that, of k] flatten_preserves(1) [OF y, of k1] f1 f2
    by simp
  with z show ?thesis by (simp add: f1 f2)
qed

theorem flattenLists_twice_witness:
  "consistent (ListAstNode 3 False 2 2
      [ListAstNode 2 False 2 1 [TextAstNode 0 (1::nat), TextAstNode 1 1] {}] {})
   \<and> flattenLists (ListAstNode 3 False 2 2
      [ListAstNode 2 False 2 1 [TextAstNode 0 (1::nat), TextAstNode 1 1] {}] {}) 4
     = (ListAstNode 5 False 2 1 [TextAstNode 0 1, TextAstNode 1 1] {}, 6)
   \<and> flattenLists (ListAstNode 5 False 2 1 [TextAstNode 0 (1::nat), TextAstNode 1 1] {}) 6
     = (ListAstNode 6 False 2 1 [TextAstNode 0 1, TextAstNode 1 1] {}, 7)
   \<and> noNestedLists (ListAstNode 6 False 2 1 [TextAstNode 0 (1::nat), TextAstNode 1 1] {})
   \<and> node_length (ListAstNode 6 False 2 1 [TextAstNode 0 (1::nat), TextAstNode 1 1] {})
       = node_length (ListAstNode 3 False 2 2
           [ListAstNode 2 False 2 1 [TextAstNode 0 (1::nat), TextAstNode 1 1] {}] {})"
proof -
  have c: "consistent (ListAstNode 3 False 2 2
      [ListAstNode 2 False 2 1 [TextAstNode 0 (1::nat), TextAstNode 1 1] {}] {})"
    by (simp add: sumLengths_def unionUnopened_def lengthAdd_def lengthZero_def getEmpty_def)
  have f1: "flattenLists (ListAstNode 3 False 2 2
      [ListAstNode 2 False 2 1 [TextAstNode 0 (1::nat), TextAstNode 1 1] {}] {}) 4
     = (ListAstNode 5 False 2 1 [TextAstNode 0 1, TextAstNode 1 1] {}, 6)"
    by (simp add: ListAstNode_create_def lengthAdd_def merge_def getEmpty_def eval_nat_numeral)
  have f2: "flattenLists (ListAstNode 5 False 2 1 [TextAstNode 0 (1::nat), TextAstNode 1 1] {}) 6
     = (ListAstNode 6 False 2 1 [TextAstNode 0 1, TextAstNode 1 1] {}, 7)"
    by (simp add: ListAstNode_create_def lengthAdd_def merge_def getEmpty_def eval_nat_numeral)
  from flattenLists_twice [of "ListAstNode 3 False 2 2
      [ListAstNode 2 False 2 1 [TextAstNode 0 (1::nat), TextAstNode 1 1] {}] {}" 4] c
  have "noNestedLists (ListAstNode 6 False 2 1 [TextAstNode 0 (1::nat), TextAstNode 1 1] {})
    \<and> node_length (ListAstNode 6 False 2 1 [TextAstNode 0 (1::nat), TextAstNode 1 1] {})
       = node_length (ListAstNode 3 False 2 2
           [ListAstNode 2 False 2 1 [TextAstNode 0 (1::nat), TextAstNode 1 1] {}] {})"
    unfolding f1 f2 prod.case by blast
  with c f1 f2 show ?thesis by blast
qed


section \<open>The scenarios of the spec\<close>

text \<open>
  A List of height 1 over a Text leaf, a closed Pair around a Text leaf and another Text
  leaf, each part of length 1, has length 5 and no unopened brackets, and can be reused
  when the end line did not change. With the Pair left open and last, it cannot be reused,
  whatever the arguments. A lone unexpected closing bracket of category 2 cannot be reused
  when category 2 is expected, and can when only category 3 is.
\<close>

lemma scenario_closed_pair:
  "ListAstNode_create
     [TextAstNode 0 (1::nat),
      fst (PairAstNode_create 1 (BracketAstNode 1 1) (Some (TextAstNode 2 1))
             (Some (BracketAstNode 1 1)) 3),
      TextAstNode 4 1] False 5
   = (ListAstNode 5 False 5 1
        [TextAstNode 0 1,
         PairAstNode 3 3 1 (BracketAstNode 1 1) (Some (TextAstNode 2 1))
           (Some (BracketAstNode 1 1)) {},
         TextAstNode 4 1] {}, 6)"
  "canBeReused
     (ListAstNode 5 False 5 1
        [TextAstNode 0 (1::nat),
         PairAstNode 3 3 1 (BracketAstNode 1 1) (Some (TextAstNode 2 1))
           (Some (BracketAstNode 1 1)) {},
         TextAstNode 4 1] {}) {} False"
  by (simp_all add: ListAstNode_create_def PairAstNode_create_def lengthAdd_def merge_def
      getEmpty_def intersects_def lastChildLoop.simps tail_def eval_nat_numeral)

lemma scenario_open_pair:
  "\<not> canBeReused
     (ListAstNode 5 False 3 1
        [TextAstNode 0 (1::nat),
         PairAstNode 3 2 1 (BracketAstNode 1 1) (Some (TextAstNode 2 1)) None {}] {})
     expected endLineDidChange"
  by (simp add: intersects_def lastChildLoop.simps tail_def)

lemma scenario_invalid_bracket:
  "\<not> canBeReused (InvalidBracketAstNode 0 (1::nat) {2}) {2} False"
  "canBeReused (InvalidBracketAstNode 0 (1::nat) {2}) {3} False"
  by (simp_all add: intersects_def)

end
